theory Spec2Isabelle
  imports Main
begin

section \<open>Memory model\<close>

text \<open>
  Nodes live in a heap addressed by natural numbers; a Go pointer \<open>*RBNode[T]\<close> is a
  \<open>nat option\<close> (\<open>None\<close> is \<open>nil\<close>).  Reading a field through \<open>nil\<close>, or calling a
  \<open>nil\<close> function value, is the run-time panic \<open>NilDeref\<close>.  A function that
  contains a loop or a recursion over the heap returns a \<open>'a res\<close>: \<open>None\<close> when it does not
  return, \<open>Some (Inl e)\<close> when it panics and \<open>Some (Inr x)\<close> when it returns \<open>x\<close>.
\<close>

datatype error = NilDeref

type_synonym 'a res = "(error + 'a) option"

record 'a RBNode =
  Val :: 'a
  left :: "nat option"
  right :: "nat option"
  parent :: "nat option"
  isBlack :: bool

record 'a heap =
  cells :: "nat \<Rightarrow> 'a RBNode"
  used :: nat

definition node :: "'a heap \<Rightarrow> nat \<Rightarrow> 'a RBNode" where
  "node h a = cells h a"

definition store :: "'a heap \<Rightarrow> nat \<Rightarrow> 'a RBNode \<Rightarrow> 'a heap" where
  "store h a n = h\<lparr>cells := (cells h)(a := n)\<rparr>"

text \<open>\<open>&RBNode[T]{...}\<close>: the new node takes the next unused address.\<close>

definition alloc :: "'a heap \<Rightarrow> 'a RBNode \<Rightarrow> 'a heap \<times> nat" where
  "alloc h n = (h\<lparr>cells := (cells h)(used h := n), used := Suc (used h)\<rparr>, used h)"

definition set_Val :: "'a heap \<Rightarrow> nat \<Rightarrow> 'a \<Rightarrow> 'a heap" where
  "set_Val h a v = store h a ((node h a)\<lparr>Val := v\<rparr>)"

definition set_left :: "'a heap \<Rightarrow> nat \<Rightarrow> nat option \<Rightarrow> 'a heap" where
  "set_left h a p = store h a ((node h a)\<lparr>left := p\<rparr>)"

definition set_right :: "'a heap \<Rightarrow> nat \<Rightarrow> nat option \<Rightarrow> 'a heap" where
  "set_right h a p = store h a ((node h a)\<lparr>right := p\<rparr>)"

definition set_parent :: "'a heap \<Rightarrow> nat \<Rightarrow> nat option \<Rightarrow> 'a heap" where
  "set_parent h a p = store h a ((node h a)\<lparr>parent := p\<rparr>)"

definition set_isBlack :: "'a heap \<Rightarrow> nat \<Rightarrow> bool \<Rightarrow> 'a heap" where
  "set_isBlack h a b = store h a ((node h a)\<lparr>isBlack := b\<rparr>)"

definition bind_res :: "'a res \<Rightarrow> ('a \<Rightarrow> 'b res) \<Rightarrow> 'b res" where
  "bind_res m f = (case m of None \<Rightarrow> None | Some (Inl e) \<Rightarrow> Some (Inl e) | Some (Inr x) \<Rightarrow> f x)"

lemma bind_res_simps [simp]:
  "bind_res None f = None"
  "bind_res (Some (Inl e)) f = Some (Inl e)"
  "bind_res (Some (Inr x)) f = f x"
  by (simp_all add: bind_res_def)

lemma bind_res_mono [partial_function_mono]:
  assumes mf: "mono_option B" and mg: "\<And>y. mono_option (\<lambda>f. C y f)"
  shows "mono_option (\<lambda>f. bind_res (B f) (\<lambda>y. C y f))"
proof (rule monotoneI)
  fix f g :: "'a \<Rightarrow> 'b option"
  assume fg: "fun_ord option_ord f g"
  from mf fg have 1: "option_ord (B f) (B g)"
    by (rule monotoneD[of _ _ _ f g])
  from mg have 2: "\<And>y. option_ord (C y f) (C y g)"
    by (rule monotoneD) (rule fg)
  show "option_ord (bind_res (B f) (\<lambda>y. C y f)) (bind_res (B g) (\<lambda>y. C y g))"
  proof (cases "B f")
    case None
    then show ?thesis by (simp add: flat_ord_def)
  next
    case (Some r)
    with 1 have Bg: "B g = Some r" by (simp add: flat_ord_def)
    show ?thesis
    proof (cases r)
      case (Inl e)
      with Some Bg show ?thesis by (simp add: flat_ord_def)
    next
      case (Inr x)
      with Some Bg 2 [of x] show ?thesis by simp
    qed
  qed
qed

section \<open>Node operations\<close>

text \<open>\<open>isBlack(rbn)\<close>: true if the node is black or nil.\<close>

definition isBlack_ptr :: "'a heap \<Rightarrow> nat option \<Rightarrow> bool" where
  "isBlack_ptr h rbn = (case rbn of None \<Rightarrow> True | Some a \<Rightarrow> isBlack (node h a))"

partial_function (option) leftmost :: "'a heap \<Rightarrow> nat \<Rightarrow> nat res" where
  "leftmost h rbn =
     (case left (node h rbn) of
        Some l \<Rightarrow> leftmost h l
      | None \<Rightarrow> Some (Inr rbn))"

declare leftmost.simps [code]

partial_function (option) rightmost :: "'a heap \<Rightarrow> nat \<Rightarrow> nat res" where
  "rightmost h rbn =
     (case right (node h rbn) of
        Some r \<Rightarrow> rightmost h r
      | None \<Rightarrow> Some (Inr rbn))"

declare rightmost.simps [code]

text \<open>The \<open>for\<close> loops of \<open>Next\<close> and \<open>Prev\<close>: climb while the node is a right (left) child.\<close>

partial_function (option) Next_loop :: "'a heap \<Rightarrow> nat \<Rightarrow> nat res" where
  "Next_loop h rbn =
     (case parent (node h rbn) of
        None \<Rightarrow> Some (Inr rbn)
      | Some p \<Rightarrow> if right (node h p) = Some rbn then Next_loop h p else Some (Inr rbn))"

declare Next_loop.simps [code]

partial_function (option) Prev_loop :: "'a heap \<Rightarrow> nat \<Rightarrow> nat res" where
  "Prev_loop h rbn =
     (case parent (node h rbn) of
        None \<Rightarrow> Some (Inr rbn)
      | Some p \<Rightarrow> if left (node h p) = Some rbn then Prev_loop h p else Some (Inr rbn))"

declare Prev_loop.simps [code]

definition Next :: "'a heap \<Rightarrow> nat \<Rightarrow> (nat option \<times> bool) res" where
  "Next h rbn =
     (case right (node h rbn) of
        Some r \<Rightarrow> bind_res (leftmost h r) (\<lambda>l. Some (Inr (Some l, True)))
      | None \<Rightarrow> bind_res (Next_loop h rbn)
          (\<lambda>rbn'. Some (Inr (parent (node h rbn'), parent (node h rbn') \<noteq> None))))"

definition Prev :: "'a heap \<Rightarrow> nat \<Rightarrow> (nat option \<times> bool) res" where
  "Prev h rbn =
     (case left (node h rbn) of
        Some l \<Rightarrow> bind_res (rightmost h l) (\<lambda>r. Some (Inr (Some r, True)))
      | None \<Rightarrow> bind_res (Prev_loop h rbn)
          (\<lambda>rbn'. Some (Inr (parent (node h rbn'), parent (node h rbn') \<noteq> None))))"

text \<open>\<open>clone\<close> copies the subtree below \<open>rbn\<close> into fresh nodes and returns the copy's root.\<close>

partial_function (option) clone :: "'a heap \<Rightarrow> nat \<Rightarrow> ('a heap \<times> nat) res" where
  "clone h rbn =
     (case alloc h \<lparr>Val = Val (node h rbn), left = None, right = None, parent = None,
                    isBlack = isBlack (node h rbn)\<rparr> of
        (h1, newNode) \<Rightarrow>
          bind_res
            (case left (node h1 rbn) of
               None \<Rightarrow> Some (Inr h1)
             | Some l \<Rightarrow>
                 bind_res (clone h1 l)
                   (\<lambda>(h2, c). Some (Inr (set_parent (set_left h2 newNode (Some c)) c (Some newNode)))))
            (\<lambda>h3.
               bind_res
                 (case right (node h3 rbn) of
                    None \<Rightarrow> Some (Inr h3)
                  | Some r \<Rightarrow>
                      bind_res (clone h3 r)
                        (\<lambda>(h4, c). Some (Inr (set_parent (set_right h4 newNode (Some c)) c (Some newNode)))))
                 (\<lambda>h5. Some (Inr (h5, newNode)))))"

declare clone.simps [code]

text \<open>
  \<open>isValid\<close> returns the black height and whether the subtree is valid.  The cell behind
  \<open>initialBlackHeight *int\<close> is threaded through: the first component of the result is its
  content on return.  The bodies of \<open>leftSubtreeIsValid\<close> and \<open>rightSubtreeIsValid\<close>, which
  call \<open>isValid\<close> back, stand inline; both are defined on their own below, and
  \<open>isValid_unfold\<close> states \<open>isValid\<close> through them.
\<close>

partial_function (option) isValid ::
  "'a heap \<Rightarrow> nat \<Rightarrow> int \<Rightarrow> int \<Rightarrow> ('a \<Rightarrow> 'a \<Rightarrow> int) option \<Rightarrow> (int \<times> int \<times> bool) res" where
  "isValid h rbn initialBlackHeight currentBlackHeight0 cmpf =
     (case (if isBlack (node h rbn) then Inr (Some (currentBlackHeight0 + 1))
            else (case parent (node h rbn) of
                    None \<Rightarrow> Inl NilDeref
                  | Some p \<Rightarrow> if \<not> isBlack (node h p) then Inr None
                              else Inr (Some currentBlackHeight0))) of
        Inl e \<Rightarrow> Some (Inl e)
      | Inr None \<Rightarrow> Some (Inr (initialBlackHeight, 0, False))
      | Inr (Some currentBlackHeight) \<Rightarrow>
          if left (node h rbn) = None \<and> right (node h rbn) = None \<and> initialBlackHeight = 0
          then Some (Inr (currentBlackHeight, currentBlackHeight, True))
          else if left (node h rbn) = None \<and> right (node h rbn) = None
                  \<and> initialBlackHeight \<noteq> currentBlackHeight
          then Some (Inr (initialBlackHeight, 0, False))
          else
            bind_res
              (case left (node h rbn) of
                 None \<Rightarrow> Some (Inr (initialBlackHeight, currentBlackHeight, True))
               | Some l \<Rightarrow>
                   (case cmpf of
                      None \<Rightarrow> if parent (node h l) \<noteq> Some rbn
                              then Some (Inr (initialBlackHeight, 0, False))
                              else Some (Inl NilDeref)
                    | Some c \<Rightarrow>
                        if parent (node h l) \<noteq> Some rbn \<or> c (Val (node h rbn)) (Val (node h l)) \<le> 0
                        then Some (Inr (initialBlackHeight, 0, False))
                        else isValid h l initialBlackHeight currentBlackHeight cmpf))
              (\<lambda>(ibh1, leftBlackHeight, ok).
                 if \<not> ok then Some (Inr (ibh1, 0, False))
                 else
                   bind_res
                     (case right (node h rbn) of
                        None \<Rightarrow> Some (Inr (ibh1, currentBlackHeight, True))
                      | Some r \<Rightarrow>
                          (case cmpf of
                             None \<Rightarrow> if parent (node h r) \<noteq> Some rbn
                                     then Some (Inr (ibh1, 0, False))
                                     else Some (Inl NilDeref)
                           | Some c \<Rightarrow>
                               if parent (node h r) \<noteq> Some rbn
                                  \<or> c (Val (node h rbn)) (Val (node h r)) \<ge> 0
                               then Some (Inr (ibh1, 0, False))
                               else isValid h r ibh1 currentBlackHeight cmpf))
                     (\<lambda>(ibh2, rightBlackHeight, ok).
                        if \<not> ok \<or> leftBlackHeight \<noteq> rightBlackHeight
                        then Some (Inr (ibh2, 0, False))
                        else Some (Inr (ibh2, max leftBlackHeight currentBlackHeight, True)))))"

declare isValid.simps [code]

definition leftSubtreeIsValid ::
  "'a heap \<Rightarrow> nat \<Rightarrow> int \<Rightarrow> int \<Rightarrow> ('a \<Rightarrow> 'a \<Rightarrow> int) option \<Rightarrow> (int \<times> int \<times> bool) res" where
  "leftSubtreeIsValid h rbn initialBlackHeight currentBlackHeight cmpf =
     (case left (node h rbn) of
        None \<Rightarrow> Some (Inr (initialBlackHeight, currentBlackHeight, True))
      | Some l \<Rightarrow>
          (case cmpf of
             None \<Rightarrow> if parent (node h l) \<noteq> Some rbn
                     then Some (Inr (initialBlackHeight, 0, False))
                     else Some (Inl NilDeref)
           | Some c \<Rightarrow>
               if parent (node h l) \<noteq> Some rbn \<or> c (Val (node h rbn)) (Val (node h l)) \<le> 0
               then Some (Inr (initialBlackHeight, 0, False))
               else isValid h l initialBlackHeight currentBlackHeight cmpf))"

definition rightSubtreeIsValid ::
  "'a heap \<Rightarrow> nat \<Rightarrow> int \<Rightarrow> int \<Rightarrow> ('a \<Rightarrow> 'a \<Rightarrow> int) option \<Rightarrow> (int \<times> int \<times> bool) res" where
  "rightSubtreeIsValid h rbn initialBlackHeight currentBlackHeight cmpf =
     (case right (node h rbn) of
        None \<Rightarrow> Some (Inr (initialBlackHeight, currentBlackHeight, True))
      | Some r \<Rightarrow>
          (case cmpf of
             None \<Rightarrow> if parent (node h r) \<noteq> Some rbn
                     then Some (Inr (initialBlackHeight, 0, False))
                     else Some (Inl NilDeref)
           | Some c \<Rightarrow>
               if parent (node h r) \<noteq> Some rbn \<or> c (Val (node h rbn)) (Val (node h r)) \<ge> 0
               then Some (Inr (initialBlackHeight, 0, False))
               else isValid h r initialBlackHeight currentBlackHeight cmpf))"

text \<open>\<open>equalTo\<close> compares two subtrees node for node.\<close>

partial_function (option) equalTo ::
  "'a heap \<Rightarrow> nat \<Rightarrow> nat option \<Rightarrow> ('a \<Rightarrow> 'a \<Rightarrow> int) option \<Rightarrow> bool res" where
  "equalTo h rbn anotherRBN cmpf =
     (case anotherRBN of
        None \<Rightarrow> Some (Inr False)
      | Some other \<Rightarrow>
          (case cmpf of
             None \<Rightarrow> Some (Inl NilDeref)
           | Some c \<Rightarrow>
               if c (Val (node h rbn)) (Val (node h other)) \<noteq> 0
                  \<or> isBlack (node h rbn) \<noteq> isBlack (node h other)
               then Some (Inr False)
               else
                 bind_res
                   (case left (node h rbn) of
                      None \<Rightarrow> Some (Inr True)
                    | Some l \<Rightarrow> equalTo h l (left (node h other)) cmpf)
                   (\<lambda>leftEqual.
                      if \<not> leftEqual then Some (Inr False)
                      else if left (node h rbn) = None \<and> left (node h other) \<noteq> None
                      then Some (Inr False)
                      else
                        bind_res
                          (case right (node h rbn) of
                             None \<Rightarrow> Some (Inr True)
                           | Some r \<Rightarrow> equalTo h r (right (node h other)) cmpf)
                          (\<lambda>rightEqual.
                             if \<not> rightEqual then Some (Inr False)
                             else if right (node h rbn) = None \<and> right (node h other) \<noteq> None
                             then Some (Inr False)
                             else Some (Inr True)))))"

declare equalTo.simps [code]

text \<open>\<open>insert\<close>: the node found or attached, and whether it is new.\<close>

partial_function (option) insert_node ::
  "'a heap \<Rightarrow> nat \<Rightarrow> 'a \<Rightarrow> ('a \<Rightarrow> 'a \<Rightarrow> int) option \<Rightarrow> ('a heap \<times> nat \<times> bool) res" where
  "insert_node h rbn val cmpf =
     (case cmpf of
        None \<Rightarrow> Some (Inl NilDeref)
      | Some c \<Rightarrow>
          let result = c val (Val (node h rbn)) in
          if result < 0 then
            (case left (node h rbn) of
               None \<Rightarrow>
                 (case alloc h \<lparr>Val = val, left = None, right = None, parent = Some rbn,
                                isBlack = False\<rparr> of
                    (h1, n) \<Rightarrow> Some (Inr (set_left h1 rbn (Some n), n, True)))
             | Some l \<Rightarrow> insert_node h l val cmpf)
          else if result > 0 then
            (case right (node h rbn) of
               None \<Rightarrow>
                 (case alloc h \<lparr>Val = val, left = None, right = None, parent = Some rbn,
                                isBlack = False\<rparr> of
                    (h1, n) \<Rightarrow> Some (Inr (set_right h1 rbn (Some n), n, True)))
             | Some r \<Rightarrow> insert_node h r val cmpf)
          else Some (Inr (h, rbn, False)))"

declare insert_node.simps [code]

text \<open>
  \<open>fmt.Sprintln(a, b)\<close> of two operands: their default formats, a space between them and a
  newline.  The default format of a value of the element type is the parameter \<open>fmt\<close>.
\<close>

definition Sprintln2 :: "string \<Rightarrow> string \<Rightarrow> string" where
  "Sprintln2 a b = a @ '' '' @ b @ [CHR 0x0A]"

partial_function (option) recString ::
  "('a \<Rightarrow> string) \<Rightarrow> 'a heap \<Rightarrow> nat \<Rightarrow> string \<Rightarrow> nat \<Rightarrow> string res" where
  "recString fmt h rbn result counter =
     bind_res
       (case right (node h rbn) of
          None \<Rightarrow> Some (Inr result)
        | Some r \<Rightarrow> recString fmt h r result (counter + 1))
       (\<lambda>result1.
          let result2 = result1 @ Sprintln2 (replicate counter (CHR '' '')) (fmt (Val (node h rbn))) in
          (case left (node h rbn) of
             None \<Rightarrow> Some (Inr result2)
           | Some l \<Rightarrow> recString fmt h l result2 (counter + 1)))"

declare recString.simps [code]

partial_function (option) find_node ::
  "'a heap \<Rightarrow> nat \<Rightarrow> 'a \<Rightarrow> ('a \<Rightarrow> 'a \<Rightarrow> int) option \<Rightarrow> (nat option \<times> bool) res" where
  "find_node h rbn val cmpf =
     (case cmpf of
        None \<Rightarrow> Some (Inl NilDeref)
      | Some c \<Rightarrow>
          let result = c val (Val (node h rbn)) in
          if result < 0 then
            (case left (node h rbn) of
               None \<Rightarrow> Some (Inr (None, False))
             | Some l \<Rightarrow> find_node h l val cmpf)
          else if result > 0 then
            (case right (node h rbn) of
               None \<Rightarrow> Some (Inr (None, False))
             | Some r \<Rightarrow> find_node h r val cmpf)
          else Some (Inr (Some rbn, True)))"

declare find_node.simps [code]

section \<open>The tree\<close>

record 'a RBTree =
  root :: "nat option"
  cmp :: "('a \<Rightarrow> 'a \<Rightarrow> int) option"
  Min_ptr :: "nat option"
  Max_ptr :: "nat option"
  Count :: int

definition New :: "('a \<Rightarrow> 'a \<Rightarrow> int) option \<Rightarrow> 'a RBTree" where
  "New cmpf = \<lparr>root = None, cmp = cmpf, Min_ptr = None, Max_ptr = None, Count = 0\<rparr>"

text \<open>The standard library's \<open>cmp.Compare\<close> on an ordered type.\<close>

definition Compare :: "'a::linorder \<Rightarrow> 'a \<Rightarrow> int" where
  "Compare x y = (if x < y then - 1 else if y < x then 1 else 0)"

definition NewOrdered :: "('a::linorder) RBTree" where
  "NewOrdered = New (Some Compare)"

definition Clone :: "'a heap \<Rightarrow> 'a RBTree \<Rightarrow> ('a heap \<times> 'a RBTree) res" where
  "Clone h rbt =
     (case root rbt of
        None \<Rightarrow> Some (Inr (h, New (cmp rbt)))
      | Some r \<Rightarrow>
          bind_res (clone h r)
            (\<lambda>(h1, c).
               let tree = \<lparr>root = Some c, cmp = cmp rbt, Min_ptr = None, Max_ptr = None,
                           Count = Count rbt\<rparr> in
               bind_res (leftmost h1 c)
                 (\<lambda>mn. bind_res (rightmost h1 c)
                    (\<lambda>mx. Some (Inr (h1, tree\<lparr>Min_ptr := Some mn, Max_ptr := Some mx\<rparr>))))))"

text \<open>The counting loop of \<open>IsValid\<close>: \<open>for i, ok := rbt.Min, true; ok; i, ok = i.Next()\<close>.\<close>

partial_function (option) IsValid_loop :: "'a heap \<Rightarrow> nat option \<Rightarrow> bool \<Rightarrow> int \<Rightarrow> int res" where
  "IsValid_loop h i ok count =
     (if ok then
        (case i of
           None \<Rightarrow> Some (Inl NilDeref)
         | Some a \<Rightarrow> bind_res (Next h a) (\<lambda>(i', ok'). IsValid_loop h i' ok' (count + 1)))
      else Some (Inr count))"

declare IsValid_loop.simps [code]

definition IsValid :: "'a heap \<Rightarrow> 'a RBTree \<Rightarrow> bool res" where
  "IsValid h rbt =
     (case cmp rbt of
        None \<Rightarrow> Some (Inr False)
      | Some c \<Rightarrow>
          (case root rbt of
             None \<Rightarrow> Some (Inr (Min_ptr rbt = None \<and> Max_ptr rbt = None \<and> Count rbt = 0))
           | Some r \<Rightarrow>
               if parent (node h r) \<noteq> None \<or> \<not> isBlack (node h r) then Some (Inr False)
               else
                 bind_res (isValid h r 0 0 (cmp rbt))
                   (\<lambda>(blackHeight, _, valid).
                      if \<not> valid then Some (Inr False)
                      else
                        bind_res (leftmost h r)
                          (\<lambda>lm. if Min_ptr rbt \<noteq> Some lm then Some (Inr False)
                             else
                               bind_res (rightmost h r)
                                 (\<lambda>rm. if Max_ptr rbt \<noteq> Some rm then Some (Inr False)
                                    else
                                      bind_res (IsValid_loop h (Min_ptr rbt) True 0)
                                        (\<lambda>count. Some (Inr (count = Count rbt))))))))"

text \<open>\<open>anotherRBT\<close> is a pointer to a tree: \<open>None\<close> is \<open>nil\<close>.\<close>

definition EqualTo :: "'a heap \<Rightarrow> 'a RBTree \<Rightarrow> 'a RBTree option \<Rightarrow> bool res" where
  "EqualTo h rbt anotherRBT =
     (case anotherRBT of
        None \<Rightarrow> Some (Inr False)
      | Some another \<Rightarrow>
          if root rbt = None \<and> root another = None then Some (Inr True)
          else if root rbt = None \<or> root another = None then Some (Inr False)
          else if Count rbt \<noteq> Count another then Some (Inr False)
          else (case root rbt of
                  None \<Rightarrow> Some (Inl NilDeref)
                | Some r \<Rightarrow> equalTo h r (root another) (cmp rbt)))"

subsection \<open>Rotations\<close>

text \<open>
  Each statement reads the fields again from the heap the statements before it left, as the
  code does.
\<close>

definition rotateRight :: "'a heap \<Rightarrow> 'a RBTree \<Rightarrow> nat \<Rightarrow> error + ('a heap \<times> 'a RBTree)" where
  "rotateRight h rbt rbn =
     (let rbt1 = (if root rbt = Some rbn then rbt\<lparr>root := left (node h rbn)\<rparr> else rbt) in
      case left (node h rbn) of
        None \<Rightarrow> Inl NilDeref
      | Some l \<Rightarrow>
          let h1 = set_parent h l (parent (node h rbn));
              h2 = set_parent h1 rbn (left (node h1 rbn)) in
          (case parent (node h2 rbn) of
             None \<Rightarrow> Inl NilDeref
           | Some p \<Rightarrow>
               let h3 = set_left h2 rbn (right (node h2 p));
                   h4 = (case left (node h3 rbn) of
                           None \<Rightarrow> h3
                         | Some c \<Rightarrow> set_parent h3 c (Some rbn)) in
               (case parent (node h4 rbn) of
                  None \<Rightarrow> Inl NilDeref
                | Some p4 \<Rightarrow>
                    let h5 = set_right h4 p4 (Some rbn) in
                    (case parent (node h5 rbn) of
                       None \<Rightarrow> Inl NilDeref
                     | Some p5 \<Rightarrow>
                         (case parent (node h5 p5) of
                            None \<Rightarrow> Inr (h5, rbt1)
                          | Some pp \<Rightarrow>
                              if left (node h5 pp) = Some rbn
                              then Inr (set_left h5 pp (Some p5), rbt1)
                              else Inr (set_right h5 pp (Some p5), rbt1))))))"

definition rotateLeft :: "'a heap \<Rightarrow> 'a RBTree \<Rightarrow> nat \<Rightarrow> error + ('a heap \<times> 'a RBTree)" where
  "rotateLeft h rbt rbn =
     (let rbt1 = (if root rbt = Some rbn then rbt\<lparr>root := right (node h rbn)\<rparr> else rbt) in
      case right (node h rbn) of
        None \<Rightarrow> Inl NilDeref
      | Some r \<Rightarrow>
          let h1 = set_parent h r (parent (node h rbn));
              h2 = set_parent h1 rbn (right (node h1 rbn)) in
          (case parent (node h2 rbn) of
             None \<Rightarrow> Inl NilDeref
           | Some p \<Rightarrow>
               let h3 = set_right h2 rbn (left (node h2 p));
                   h4 = (case right (node h3 rbn) of
                           None \<Rightarrow> h3
                         | Some c \<Rightarrow> set_parent h3 c (Some rbn)) in
               (case parent (node h4 rbn) of
                  None \<Rightarrow> Inl NilDeref
                | Some p4 \<Rightarrow>
                    let h5 = set_left h4 p4 (Some rbn) in
                    (case parent (node h5 rbn) of
                       None \<Rightarrow> Inl NilDeref
                     | Some p5 \<Rightarrow>
                         (case parent (node h5 p5) of
                            None \<Rightarrow> Inr (h5, rbt1)
                          | Some pp \<Rightarrow>
                              if left (node h5 pp) = Some rbn
                              then Inr (set_left h5 pp (Some p5), rbt1)
                              else Inr (set_right h5 pp (Some p5), rbt1))))))"

subsection \<open>Insertion\<close>

text \<open>
  \<open>solveDoubleRed\<close>: \<open>rbn\<close> is a red node with a red child.  A pointer that was read is used
  again as long as only colours are written in between.
\<close>

partial_function (option) solveDoubleRed ::
  "'a heap \<Rightarrow> 'a RBTree \<Rightarrow> nat \<Rightarrow> ('a heap \<times> 'a RBTree) res" where
  "solveDoubleRed h rbt rbn =
     (case parent (node h rbn) of
        None \<Rightarrow> Some (Inl NilDeref)
      | Some g \<Rightarrow>
          if isBlack_ptr h (left (node h g)) then
            bind_res
              (if \<not> isBlack_ptr h (left (node h rbn)) then
                 bind_res (Some (rotateRight h rbt rbn))
                   (\<lambda>(h1, rbt1).
                      case parent (node h1 rbn) of
                        None \<Rightarrow> Some (Inl NilDeref)
                      | Some rbn1 \<Rightarrow> Some (Inr (h1, rbt1, rbn1)))
               else Some (Inr (h, rbt, rbn)))
              (\<lambda>(h1, rbt1, rbn1).
                 case parent (node h1 rbn1) of
                   None \<Rightarrow> Some (Inl NilDeref)
                 | Some p \<Rightarrow>
                     Some (rotateLeft (set_isBlack (set_isBlack h1 p False) rbn1 True) rbt1 p))
          else if isBlack_ptr h (right (node h g)) then
            bind_res
              (if \<not> isBlack_ptr h (right (node h rbn)) then
                 bind_res (Some (rotateLeft h rbt rbn))
                   (\<lambda>(h1, rbt1).
                      case parent (node h1 rbn) of
                        None \<Rightarrow> Some (Inl NilDeref)
                      | Some rbn1 \<Rightarrow> Some (Inr (h1, rbt1, rbn1)))
               else Some (Inr (h, rbt, rbn)))
              (\<lambda>(h1, rbt1, rbn1).
                 case parent (node h1 rbn1) of
                   None \<Rightarrow> Some (Inl NilDeref)
                 | Some p \<Rightarrow>
                     Some (rotateRight (set_isBlack (set_isBlack h1 p False) rbn1 True) rbt1 p))
          else
            (case left (node h g) of
               None \<Rightarrow> Some (Inl NilDeref)
             | Some l \<Rightarrow>
                 (case right (node h g) of
                    None \<Rightarrow> Some (Inl NilDeref)
                  | Some r \<Rightarrow>
                      let h2 = set_isBlack (set_isBlack h l True) r True in
                      (case parent (node h2 g) of
                         None \<Rightarrow> Some (Inr (h2, rbt))
                       | Some gg \<Rightarrow>
                           let h3 = set_isBlack h2 g False in
                           if \<not> isBlack (node h3 gg) then solveDoubleRed h3 rbt gg
                           else Some (Inr (h3, rbt))))))"

declare solveDoubleRed.simps [code]

definition Insert :: "'a heap \<Rightarrow> 'a RBTree \<Rightarrow> 'a \<Rightarrow> ('a heap \<times> 'a RBTree \<times> nat option \<times> bool) res" where
  "Insert h rbt val =
     (case root rbt of
        None \<Rightarrow>
          (case alloc h \<lparr>Val = val, left = None, right = None, parent = None, isBlack = True\<rparr> of
             (h1, n) \<Rightarrow>
               Some (Inr (h1, rbt\<lparr>root := Some n, Min_ptr := Some n, Max_ptr := Some n,
                                   Count := Count rbt + 1\<rparr>, Some n, True)))
      | Some r \<Rightarrow>
          bind_res (insert_node h r val (cmp rbt))
            (\<lambda>(h1, insertedNode, ok).
               if \<not> ok then Some (Inr (h1, rbt, Some insertedNode, False))
               else
                 (case cmp rbt of
                    None \<Rightarrow> Some (Inl NilDeref)
                  | Some c \<Rightarrow>
                      (case Min_ptr rbt of
                         None \<Rightarrow> Some (Inl NilDeref)
                       | Some mn \<Rightarrow>
                           bind_res
                             (if c val (Val (node h1 mn)) < 0
                              then Some (Inr (rbt\<lparr>Min_ptr := Some insertedNode\<rparr>))
                              else (case Max_ptr rbt of
                                      None \<Rightarrow> Some (Inl NilDeref)
                                    | Some mx \<Rightarrow>
                                        if c val (Val (node h1 mx)) > 0
                                        then Some (Inr (rbt\<lparr>Max_ptr := Some insertedNode\<rparr>))
                                        else Some (Inr rbt)))
                             (\<lambda>rbt1.
                                case parent (node h1 insertedNode) of
                                  None \<Rightarrow> Some (Inl NilDeref)
                                | Some p \<Rightarrow>
                                    bind_res
                                      (if \<not> isBlack (node h1 p) then solveDoubleRed h1 rbt1 p
                                       else Some (Inr (h1, rbt1)))
                                      (\<lambda>(h2, rbt2).
                                         Some (Inr (h2, rbt2\<lparr>Count := Count rbt2 + 1\<rparr>,
                                                    Some insertedNode, True))))))))"

definition String_rbt :: "('a \<Rightarrow> string) \<Rightarrow> 'a heap \<Rightarrow> 'a RBTree \<Rightarrow> string res" where
  "String_rbt fmt h rbt =
     (case root rbt of
        None \<Rightarrow> Some (Inr [])
      | Some r \<Rightarrow> recString fmt h r [] 0)"

definition Find :: "'a heap \<Rightarrow> 'a RBTree \<Rightarrow> 'a \<Rightarrow> (nat option \<times> bool) res" where
  "Find h rbt val =
     (case root rbt of
        None \<Rightarrow> Some (Inr (None, False))
      | Some r \<Rightarrow> find_node h r val (cmp rbt))"

subsection \<open>Deletion\<close>

definition doubleBlackBlackSiblingRedChild ::
  "'a heap \<Rightarrow> 'a RBTree \<Rightarrow> nat \<Rightarrow> nat \<Rightarrow> bool \<Rightarrow> error + ('a heap \<times> 'a RBTree)" where
  "doubleBlackBlackSiblingRedChild h rbt parent_n sibling siblingIsRight =
     (let rightIsBlack = isBlack_ptr h (right (node h sibling));
          leftIsBlack = isBlack_ptr h (left (node h sibling)) in
      case (if rightIsBlack = siblingIsRight \<and> leftIsBlack \<noteq> siblingIsRight then
              (let h1 = set_isBlack h sibling False in
               if siblingIsRight then
                 (case left (node h1 sibling) of
                    None \<Rightarrow> Inl NilDeref
                  | Some sl \<Rightarrow>
                      (case rotateRight (set_isBlack h1 sl True) rbt sibling of
                         Inl e \<Rightarrow> Inl e
                       | Inr (h2, rbt2) \<Rightarrow>
                           (case right (node h2 parent_n) of
                              None \<Rightarrow> Inl NilDeref
                            | Some s2 \<Rightarrow>
                                Inr (h2, rbt2, s2, isBlack_ptr h2 (right (node h2 s2)),
                                     isBlack_ptr h2 (left (node h2 s2))))))
               else
                 (case right (node h1 sibling) of
                    None \<Rightarrow> Inl NilDeref
                  | Some sr \<Rightarrow>
                      (case rotateLeft (set_isBlack h1 sr True) rbt sibling of
                         Inl e \<Rightarrow> Inl e
                       | Inr (h2, rbt2) \<Rightarrow>
                           (case left (node h2 parent_n) of
                              None \<Rightarrow> Inl NilDeref
                            | Some s2 \<Rightarrow>
                                Inr (h2, rbt2, s2, isBlack_ptr h2 (right (node h2 s2)),
                                     isBlack_ptr h2 (left (node h2 s2)))))))
            else Inr (h, rbt, sibling, rightIsBlack, leftIsBlack)) of
        Inl e \<Rightarrow> Inl e
      | Inr (h1, rbt1, sibling1, rightIsBlack1, leftIsBlack1) \<Rightarrow>
          let h2 = set_isBlack h1 sibling1 (isBlack (node h1 parent_n));
              h3 = set_isBlack h2 parent_n True in
          if siblingIsRight \<and> \<not> rightIsBlack1 then
            (case right (node h3 sibling1) of
               None \<Rightarrow> Inl NilDeref
             | Some sr \<Rightarrow> rotateLeft (set_isBlack h3 sr True) rbt1 parent_n)
          else if \<not> siblingIsRight \<and> \<not> leftIsBlack1 then
            (case left (node h3 sibling1) of
               None \<Rightarrow> Inl NilDeref
             | Some sl \<Rightarrow> rotateRight (set_isBlack h3 sl True) rbt1 parent_n)
          else Inr (h3, rbt1))"

partial_function (option) solveDoubleBlack ::
  "'a heap \<Rightarrow> 'a RBTree \<Rightarrow> nat \<Rightarrow> ('a heap \<times> 'a RBTree) res" where
  "solveDoubleBlack h rbt rbn =
     (if root rbt = Some rbn then Some (Inr (h, rbt))
      else
        (case parent (node h rbn) of
           None \<Rightarrow> Some (Inl NilDeref)
         | Some parent_n \<Rightarrow>
             let siblingIsRight =
                   (left (node h parent_n) = Some rbn
                    \<or> (right (node h parent_n) \<noteq> None \<and> right (node h parent_n) \<noteq> Some rbn));
                 sibling = (if siblingIsRight then right (node h parent_n)
                            else left (node h parent_n)) in
             bind_res
               (case sibling of
                  None \<Rightarrow> Some (Inr (h, rbt, sibling))
                | Some s \<Rightarrow>
                    if \<not> isBlack (node h s) then
                      (let h2 = set_isBlack (set_isBlack h parent_n False) s True in
                       if siblingIsRight then
                         bind_res (Some (rotateLeft h2 rbt parent_n))
                           (\<lambda>(h3, rbt3). Some (Inr (h3, rbt3, right (node h3 parent_n))))
                       else
                         bind_res (Some (rotateRight h2 rbt parent_n))
                           (\<lambda>(h3, rbt3). Some (Inr (h3, rbt3, left (node h3 parent_n)))))
                    else Some (Inr (h, rbt, sibling)))
               (\<lambda>(h1, rbt1, sibling1).
                  case sibling1 of
                    None \<Rightarrow> Some (Inl NilDeref)
                  | Some s \<Rightarrow>
                      if isBlack (node h1 s) \<and> isBlack_ptr h1 (left (node h1 s))
                         \<and> isBlack_ptr h1 (right (node h1 s)) then
                        (let h2 = set_isBlack h1 s False in
                         if isBlack (node h2 parent_n) then solveDoubleBlack h2 rbt1 parent_n
                         else Some (Inr (set_isBlack h2 parent_n True, rbt1)))
                      else Some (doubleBlackBlackSiblingRedChild h1 rbt1 parent_n s siblingIsRight))))"

declare solveDoubleBlack.simps [code]

definition deleteNoChildren :: "'a heap \<Rightarrow> 'a RBTree \<Rightarrow> nat \<Rightarrow> ('a heap \<times> 'a RBTree) res" where
  "deleteNoChildren h rbt rbn =
     (case parent (node h rbn) of
        None \<Rightarrow> Some (Inl NilDeref)
      | Some p \<Rightarrow>
          let h1 = (if left (node h p) = Some rbn then set_left h p None else set_right h p None) in
          if isBlack (node h1 rbn) then solveDoubleBlack h1 rbt rbn
          else Some (Inr (h1, rbt)))"

partial_function (option) findAndDeleteLeftmost ::
  "'a heap \<Rightarrow> 'a RBTree \<Rightarrow> nat \<Rightarrow> ('a heap \<times> 'a RBTree \<times> 'a) res" where
  "findAndDeleteLeftmost h rbt rbn =
     (case left (node h rbn) of
        Some l \<Rightarrow> findAndDeleteLeftmost h rbt l
      | None \<Rightarrow>
          (case right (node h rbn) of
             Some r \<Rightarrow>
               let h1 = set_parent h r (parent (node h rbn)) in
               (case right (node h1 rbn) of
                  None \<Rightarrow> Some (Inl NilDeref)
                | Some r1 \<Rightarrow>
                    let h2 = set_isBlack h1 r1 True in
                    (case parent (node h2 rbn) of
                       None \<Rightarrow> Some (Inl NilDeref)
                     | Some p \<Rightarrow>
                         let h3 = (if left (node h2 p) = Some rbn
                                   then set_left h2 p (right (node h2 rbn))
                                   else set_right h2 p (right (node h2 rbn))) in
                         Some (Inr (h3, rbt, Val (node h3 rbn)))))
           | None \<Rightarrow>
               bind_res (deleteNoChildren h rbt rbn)
                 (\<lambda>(h1, rbt1). Some (Inr (h1, rbt1, Val (node h1 rbn))))))"

declare findAndDeleteLeftmost.simps [code]

definition deleteCheckChildren :: "'a heap \<Rightarrow> 'a RBTree \<Rightarrow> nat \<Rightarrow> ('a heap \<times> 'a RBTree) res" where
  "deleteCheckChildren h rbt rbnDelete =
     bind_res
       (if left (node h rbnDelete) = None \<and> right (node h rbnDelete) = None then
          deleteNoChildren h rbt rbnDelete
        else if left (node h rbnDelete) = None then
          (case right (node h rbnDelete) of
             None \<Rightarrow> Some (Inl NilDeref)
           | Some r \<Rightarrow>
               Some (Inr (set_right (set_Val h rbnDelete (Val (node h r))) rbnDelete None, rbt)))
        else if right (node h rbnDelete) = None then
          (case left (node h rbnDelete) of
             None \<Rightarrow> Some (Inl NilDeref)
           | Some l \<Rightarrow>
               Some (Inr (set_left (set_Val h rbnDelete (Val (node h l))) rbnDelete None, rbt)))
        else
          (case right (node h rbnDelete) of
             None \<Rightarrow> Some (Inl NilDeref)
           | Some r \<Rightarrow>
               bind_res (findAndDeleteLeftmost h rbt r)
                 (\<lambda>(h1, rbt1, v). Some (Inr (set_Val h1 rbnDelete v, rbt1)))))
       (\<lambda>(h2, rbt2).
          case cmp rbt2 of
            None \<Rightarrow> Some (Inl NilDeref)
          | Some c \<Rightarrow>
              (case Min_ptr rbt2 of
                 None \<Rightarrow> Some (Inl NilDeref)
               | Some mn \<Rightarrow>
                   let rbt3 = (if c (Val (node h2 rbnDelete)) (Val (node h2 mn)) = 0
                               then rbt2\<lparr>Min_ptr := Some rbnDelete\<rparr> else rbt2) in
                   (case Max_ptr rbt3 of
                      None \<Rightarrow> Some (Inl NilDeref)
                    | Some mx \<Rightarrow>
                        Some (Inr (h2, if c (Val (node h2 rbnDelete)) (Val (node h2 mx)) = 0
                                       then rbt3\<lparr>Max_ptr := Some rbnDelete\<rparr> else rbt3)))))"

text \<open>\<open>zero\<close> is the zero value of the element type (\<open>var del T\<close>).\<close>

definition Delete :: "'a \<Rightarrow> 'a heap \<Rightarrow> 'a RBTree \<Rightarrow> 'a \<Rightarrow> ('a heap \<times> 'a RBTree \<times> 'a \<times> bool) res" where
  "Delete zero h rbt val =
     (case root rbt of
        None \<Rightarrow> Some (Inr (h, rbt, zero, False))
      | Some r \<Rightarrow>
          bind_res (find_node h r val (cmp rbt))
            (\<lambda>(rbnDelete, ok).
               if \<not> ok then Some (Inr (h, rbt, zero, False))
               else
                 (case rbnDelete of
                    None \<Rightarrow> Some (Inl NilDeref)
                  | Some d \<Rightarrow>
                      let val1 = Val (node h d);
                          rbt1 = rbt\<lparr>Count := Count rbt - 1\<rparr> in
                      if Count rbt1 = 0 then
                        Some (Inr (h, rbt1\<lparr>root := None, Min_ptr := None, Max_ptr := None\<rparr>,
                                   val1, True))
                      else
                        (case cmp rbt1 of
                           None \<Rightarrow> Some (Inl NilDeref)
                         | Some c \<Rightarrow>
                             (case Min_ptr rbt1 of
                                None \<Rightarrow> Some (Inl NilDeref)
                              | Some mn \<Rightarrow>
                                  bind_res
                                    (if c val1 (Val (node h mn)) = 0
                                     then bind_res (Next h mn)
                                            (\<lambda>(nx, _). Some (Inr (rbt1\<lparr>Min_ptr := nx\<rparr>)))
                                     else Some (Inr rbt1))
                                    (\<lambda>rbt2.
                                       case Max_ptr rbt2 of
                                         None \<Rightarrow> Some (Inl NilDeref)
                                       | Some mx \<Rightarrow>
                                           bind_res
                                             (if c val1 (Val (node h mx)) = 0
                                              then bind_res (Prev h mx)
                                                     (\<lambda>(pv, _). Some (Inr (rbt2\<lparr>Max_ptr := pv\<rparr>)))
                                              else Some (Inr rbt2))
                                             (\<lambda>rbt3.
                                                bind_res (deleteCheckChildren h rbt3 d)
                                                  (\<lambda>(h', rbt4). Some (Inr (h', rbt4, val1, True))))))))))"

section \<open>Concrete scenarios\<close>

text \<open>The default format of an \<open>int\<close>: its decimal digits, with a sign when negative.\<close>

fun fmt_nat :: "nat \<Rightarrow> string" where
  "fmt_nat n = (if n < 10 then [char_of (48 + n)] else fmt_nat (n div 10) @ [char_of (48 + n mod 10)])"

declare fmt_nat.simps [simp del]

definition fmt_int :: "int \<Rightarrow> string" where
  "fmt_int i = (if i < 0 then CHR ''-'' # fmt_nat (nat (- i)) else fmt_nat (nat i))"

text \<open>A heap of integers in which nothing is allocated yet.\<close>

definition heap0 :: "int heap" where
  "heap0 = \<lparr>cells = (\<lambda>_. \<lparr>Val = 0, left = None, right = None, parent = None, isBlack = False\<rparr>),
            used = 0\<rparr>"

fun insert_all :: "'a heap \<Rightarrow> 'a RBTree \<Rightarrow> 'a list \<Rightarrow> ('a heap \<times> 'a RBTree) res" where
  "insert_all h rbt [] = Some (Inr (h, rbt))"
| "insert_all h rbt (v # vs) = bind_res (Insert h rbt v) (\<lambda>(h1, rbt1, _, _). insert_all h1 rbt1 vs)"

text \<open>
  Claim C2.  Inserting 70, 50, 80, 20, 60, 75, 100 in that order into an empty ordered tree of
  integers gives a tree on which \<open>IsValid\<close> returns true and whose \<open>String\<close> is the seven
  values, largest first, one per line, each after one space and one more space per level of
  depth.
\<close>

theorem insert_seven_scenario:
  "bind_res (insert_all heap0 NewOrdered [70, 50, 80, 20, 60, 75, 100])
     (\<lambda>(h, rbt). bind_res (IsValid h rbt)
        (\<lambda>valid. bind_res (String_rbt fmt_int h rbt) (\<lambda>s. Some (Inr (valid, s)))))
   = Some (Inr (True,
       ''   100\<newline>  80\<newline>   75\<newline> 70\<newline>   60\<newline>  50\<newline>   20\<newline>''))"
  by code_simp

theorem insert_seven_scenario_witness:
  "\<exists>h rbt. insert_all heap0 NewOrdered [70, 50, 80, 20, 60, 75, 100] = Some (Inr (h, rbt))
      \<and> IsValid h rbt = Some (Inr True)
      \<and> String_rbt fmt_int h rbt = Some (Inr
       ''   100\<newline>  80\<newline>   75\<newline> 70\<newline>   60\<newline>  50\<newline>   20\<newline>'')"
  using insert_seven_scenario
  by (auto simp: bind_res_def split: option.splits sum.splits)

section \<open>Deleting the only node\<close>

lemma single_node_count:
  assumes "IsValid h rbt = Some (Inr True)" "root rbt = Some r"
    "left (node h r) = None" "right (node h r) = None"
  shows "Count rbt = 1 \<and> cmp rbt \<noteq> None"
proof -
  have lm: "leftmost h r = Some (Inr r)"
    using assms by (subst leftmost.simps) simp
  have rm: "rightmost h r = Some (Inr r)"
    using assms by (subst rightmost.simps) simp
  have nx: "parent (node h r) = None \<Longrightarrow> Next h r = Some (Inr (None, False))"
    using assms by (simp add: Next_def Next_loop.simps)
  have lp: "parent (node h r) = None \<Longrightarrow> IsValid_loop h (Some r) True 0 = Some (Inr 1)"
    by (subst IsValid_loop.simps, simp add: nx, subst IsValid_loop.simps, simp)
  show ?thesis
    using assms lm rm lp
    apply (simp add: IsValid_def split: option.splits if_splits)
    apply (subst (asm) isValid.simps)
    apply (auto split: option.splits if_splits)
    done
qed

text \<open>
  Claim C9.  On a valid tree whose root has no children (a tree of exactly one node), deleting
  a value that compares equal to the root's returns the root's value and true, and leaves the
  empty tree: no root, no \<open>Min\<close>, no \<open>Max\<close>, \<open>Count\<close> zero; \<open>IsValid\<close> is true of it.
\<close>

theorem delete_single_node:
  assumes "IsValid h rbt = Some (Inr True)" "root rbt = Some r"
    "left (node h r) = None" "right (node h r) = None"
    "cmp rbt = Some c" "c val (Val (node h r)) = 0"
  shows "Delete zero h rbt val
           = Some (Inr (h, rbt\<lparr>root := None, Min_ptr := None, Max_ptr := None, Count := 0\<rparr>,
                        Val (node h r), True))
         \<and> IsValid h (rbt\<lparr>root := None, Min_ptr := None, Max_ptr := None, Count := 0\<rparr>)
           = Some (Inr True)"
proof -
  from single_node_count [OF assms(1-4)] have cnt: "Count rbt = 1" by simp
  have f: "find_node h r val (Some c) = Some (Inr (Some r, True))"
    using assms by (subst find_node.simps) simp
  show ?thesis
    using assms cnt f by (simp add: Delete_def IsValid_def)
qed

definition heap1 :: "int heap" where
  "heap1 = \<lparr>cells = (cells heap0)(0 := \<lparr>Val = 70, left = None, right = None, parent = None,
                                         isBlack = True\<rparr>),
            used = 1\<rparr>"

definition tree1 :: "int RBTree" where
  "tree1 = \<lparr>root = Some 0, cmp = Some Compare, Min_ptr = Some 0, Max_ptr = Some 0, Count = 1\<rparr>"

theorem delete_single_node_witness:
  "IsValid heap1 tree1 = Some (Inr True) \<and> root tree1 = Some 0
   \<and> left (node heap1 0) = None \<and> right (node heap1 0) = None
   \<and> Delete 0 heap1 tree1 70
       = Some (Inr (heap1, tree1\<lparr>root := None, Min_ptr := None, Max_ptr := None, Count := 0\<rparr>,
                    70, True))
   \<and> IsValid heap1 (tree1\<lparr>root := None, Min_ptr := None, Max_ptr := None, Count := 0\<rparr>)
       = Some (Inr True)"
proof -
  have 1: "IsValid heap1 tree1 = Some (Inr True)" by code_simp
  have 2: "root tree1 = Some 0" by (simp add: tree1_def)
  have 3: "left (node heap1 0) = None" "right (node heap1 0) = None"
    by (simp_all add: heap1_def node_def)
  have 4: "cmp tree1 = Some Compare" by (simp add: tree1_def)
  have 5: "Compare (70::int) (Val (node heap1 0)) = 0"
    by (simp add: heap1_def node_def Compare_def)
  have 6: "Val (node heap1 0) = 70" by (simp add: heap1_def node_def)
  from delete_single_node [OF 1 2 3 4 5, of 0] 1 2 3 6 show ?thesis by simp
qed

section \<open>Reading and writing the heap\<close>

lemma node_store [simp]: "node (store h a n) b = (if b = a then n else node h b)"
  by (simp add: node_def store_def)

lemma used_store [simp]: "used (store h a n) = used h"
  by (simp add: store_def)

lemma alloc_eq: "alloc h n = (store (h\<lparr>used := Suc (used h)\<rparr>) (used h) n, used h)"
  by (simp add: alloc_def store_def)

lemma node_used_update [simp]: "node (h\<lparr>used := k\<rparr>) b = node h b"
  by (simp add: node_def)

lemma node_set_Val [simp]:
  "node (set_Val h a v) b = (if b = a then (node h a)\<lparr>Val := v\<rparr> else node h b)"
  by (simp add: set_Val_def)

lemma node_set_left [simp]:
  "node (set_left h a p) b = (if b = a then (node h a)\<lparr>left := p\<rparr> else node h b)"
  by (simp add: set_left_def)

lemma node_set_right [simp]:
  "node (set_right h a p) b = (if b = a then (node h a)\<lparr>right := p\<rparr> else node h b)"
  by (simp add: set_right_def)

lemma node_set_parent [simp]:
  "node (set_parent h a p) b = (if b = a then (node h a)\<lparr>parent := p\<rparr> else node h b)"
  by (simp add: set_parent_def)

lemma node_set_isBlack [simp]:
  "node (set_isBlack h a c) b = (if b = a then (node h a)\<lparr>isBlack := c\<rparr> else node h b)"
  by (simp add: set_isBlack_def)

lemma used_set [simp]:
  "used (set_Val h a v) = used h"
  "used (set_left h a p) = used h"
  "used (set_right h a p) = used h"
  "used (set_parent h a p) = used h"
  "used (set_isBlack h a c) = used h"
  by (simp_all add: set_Val_def set_left_def set_right_def set_parent_def set_isBlack_def)

section \<open>Trees in the heap\<close>

datatype 'a tree = Leaf | Node "'a tree" nat bool 'a "'a tree"

fun addrs :: "'a tree \<Rightarrow> nat list" where
  "addrs Leaf = []"
| "addrs (Node l a b v r) = addrs l @ a # addrs r"

fun vals :: "'a tree \<Rightarrow> 'a list" where
  "vals Leaf = []"
| "vals (Node l a b v r) = vals l @ v # vals r"

fun tree_at :: "'a heap \<Rightarrow> nat option \<Rightarrow> nat option \<Rightarrow> 'a tree \<Rightarrow> bool" where
  "tree_at h p par Leaf = (p = None)"
| "tree_at h p par (Node l a b v r) =
     (p = Some a \<and> Val (node h a) = v \<and> isBlack (node h a) = b \<and> parent (node h a) = par
      \<and> tree_at h (left (node h a)) (Some a) l \<and> tree_at h (right (node h a)) (Some a) r)"

lemma tree_at_None [simp]: "tree_at h None par t = (t = Leaf)"
  by (cases t) auto

lemma tree_at_frame:
  "\<forall>a \<in> set (addrs t). node h' a = node h a \<Longrightarrow> tree_at h' p par t = tree_at h p par t"
  by (induction t arbitrary: p par) auto

lemma tree_at_unique:
  "tree_at h p par t \<Longrightarrow> tree_at h p par' t' \<Longrightarrow> t = t'"
  by (induction t arbitrary: p par par' t') (case_tac t'; auto)+


lemma tree_at_Some_addrs: "tree_at h (Some a) par t \<Longrightarrow> addrs t \<noteq> []"
  by (cases t) auto

lemma tree_at_Some_Node: "tree_at h (Some a) par t \<Longrightarrow> \<exists>l b v r. t = Node l a b v r"
  by (cases t) auto

lemma leftmost_tree:
  "tree_at h (Some a) par t \<Longrightarrow> leftmost h a = Some (Inr (hd (addrs t)))"
proof (induction t arbitrary: a par)
  case Leaf
  then show ?case by simp
next
  case (Node l x b v r)
  from Node.prems have ax: "a = x" and lt: "tree_at h (left (node h a)) (Some a) l" by auto
  show ?case
  proof (cases "left (node h a)")
    case None
    with lt have "l = Leaf" by simp
    with None ax show ?thesis by (subst leftmost.simps) simp
  next
    case (Some y)
    with lt have t: "tree_at h (Some y) (Some a) l" by simp
    from Node.IH(1) [OF t] tree_at_Some_addrs [OF t] Some show ?thesis
      by (subst leftmost.simps) simp
  qed
qed

lemma rightmost_tree:
  "tree_at h (Some a) par t \<Longrightarrow> rightmost h a = Some (Inr (last (addrs t)))"
proof (induction t arbitrary: a par)
  case Leaf
  then show ?case by simp
next
  case (Node l x b v r)
  from Node.prems have ax: "a = x" and rt: "tree_at h (right (node h a)) (Some a) r" by auto
  show ?case
  proof (cases "right (node h a)")
    case None
    with rt have "r = Leaf" by simp
    with None ax show ?thesis by (subst rightmost.simps) simp
  next
    case (Some y)
    with rt have t: "tree_at h (Some y) (Some a) r" by simp
    from Node.IH(2) [OF t] tree_at_Some_addrs [OF t] Some show ?thesis
      by (subst rightmost.simps) simp
  qed
qed

section \<open>The comparator\<close>

text \<open>
  The contract of the comparator: a three-way comparison of a strict order in which values
  that compare equal are interchangeable.
\<close>

definition cmp_ok :: "('a \<Rightarrow> 'a \<Rightarrow> int) \<Rightarrow> bool" where
  "cmp_ok c \<longleftrightarrow>
     (\<forall>x. c x x = 0)
     \<and> (\<forall>x y. (c x y < 0) = (c y x > 0))
     \<and> (\<forall>x y z. c x y < 0 \<and> c y z < 0 \<longrightarrow> c x z < 0)
     \<and> (\<forall>x y z. c x y = 0 \<and> c y z < 0 \<longrightarrow> c x z < 0)
     \<and> (\<forall>x y z. c x y < 0 \<and> c y z = 0 \<longrightarrow> c x z < 0)"

lemma cmp_ok_refl: "cmp_ok c \<Longrightarrow> c x x = 0"
  by (simp add: cmp_ok_def)

lemma cmp_ok_flip: "cmp_ok c \<Longrightarrow> (c y x > 0) = (c x y < 0)"
  by (simp add: cmp_ok_def)

lemma cmp_ok_sym: "cmp_ok c \<Longrightarrow> (c y x = 0) = (c x y = 0)"
  unfolding cmp_ok_def by (metis less_numeral_extra(3) linorder_neqE_linordered_idom)

lemma cmp_ok_trans: "cmp_ok c \<Longrightarrow> c x y < 0 \<Longrightarrow> c y z < 0 \<Longrightarrow> c x z < 0"
  unfolding cmp_ok_def by blast

lemma cmp_ok_eq_less: "cmp_ok c \<Longrightarrow> c x y = 0 \<Longrightarrow> c y z < 0 \<Longrightarrow> c x z < 0"
  unfolding cmp_ok_def by blast

lemma cmp_ok_less_eq: "cmp_ok c \<Longrightarrow> c x y < 0 \<Longrightarrow> c y z = 0 \<Longrightarrow> c x z < 0"
  unfolding cmp_ok_def by blast

lemma cmp_ok_irrefl: "cmp_ok c \<Longrightarrow> c x y < 0 \<Longrightarrow> c y x < 0 \<Longrightarrow> False"
  unfolding cmp_ok_def by (metis less_asym')

lemma cmp_ok_Compare: "cmp_ok (Compare :: 'a::linorder \<Rightarrow> 'a \<Rightarrow> int)"
  by (auto simp: cmp_ok_def Compare_def)

definition bst :: "('a \<Rightarrow> 'a \<Rightarrow> int) \<Rightarrow> 'a tree \<Rightarrow> bool" where
  "bst c t = sorted_wrt (\<lambda>x y. c x y < 0) (vals t)"

lemma bst_Node:
  "bst c (Node l a b v r) =
     (bst c l \<and> bst c r \<and> (\<forall>x \<in> set (vals l). c x v < 0) \<and> (\<forall>y \<in> set (vals r). c v y < 0)
      \<and> (\<forall>x \<in> set (vals l). \<forall>y \<in> set (vals r). c x y < 0))"
  by (auto simp: bst_def sorted_wrt_append)

lemma bst_Leaf [simp]: "bst c Leaf"
  by (simp add: bst_def)

section \<open>Searching\<close>

lemma find_node_absent:
  "tree_at h (Some a) par t \<Longrightarrow> \<forall>v \<in> set (vals t). c val v \<noteq> 0
   \<Longrightarrow> find_node h a val (Some c) = Some (Inr (None, False))"
proof (induction t arbitrary: a par)
  case Leaf
  then show ?case by simp
next
  case (Node l x b v r)
  from Node.prems have ax: "a = x" and va: "Val (node h a) = v"
    and lt: "tree_at h (left (node h a)) (Some a) l"
    and rt: "tree_at h (right (node h a)) (Some a) r" by auto
  from Node.prems have nz: "c val v \<noteq> 0"
    and nl: "\<forall>v \<in> set (vals l). c val v \<noteq> 0" and nr: "\<forall>v \<in> set (vals r). c val v \<noteq> 0"
    by auto
  show ?case
  proof (cases "c val v < 0")
    case True
    show ?thesis
    proof (cases "left (node h a)")
      case None
      with True va show ?thesis by (subst find_node.simps) simp
    next
      case (Some y)
      with lt have "tree_at h (Some y) (Some a) l" by simp
      from Node.IH(1) [OF this nl] Some True va show ?thesis
        by (subst find_node.simps) simp
    qed
  next
    case False
    with nz have pos: "c val v > 0" by simp
    show ?thesis
    proof (cases "right (node h a)")
      case None
      with pos va show ?thesis by (subst find_node.simps) simp
    next
      case (Some y)
      with rt have "tree_at h (Some y) (Some a) r" by simp
      from Node.IH(2) [OF this nr] Some pos va show ?thesis
        by (subst find_node.simps) simp
    qed
  qed
qed


lemma insert_node_existing:
  assumes ok: "cmp_ok c"
  shows "tree_at h (Some a) par t \<Longrightarrow> bst c t \<Longrightarrow> \<exists>x \<in> set (vals t). c val x = 0
   \<Longrightarrow> \<exists>e. insert_node h a val (Some c) = Some (Inr (h, e, False))
          \<and> e \<in> set (addrs t) \<and> c val (Val (node h e)) = 0"
proof (induction t arbitrary: a par)
  case Leaf
  then show ?case by simp
next
  case (Node l x b v r)
  from Node.prems(1) have ax: "a = x" and va: "Val (node h a) = v"
    and lt: "tree_at h (left (node h a)) (Some a) l"
    and rt: "tree_at h (right (node h a)) (Some a) r" by auto
  from Node.prems(2) have bl: "bst c l" and br: "bst c r"
    and lv: "\<forall>x \<in> set (vals l). c x v < 0" and vr: "\<forall>y \<in> set (vals r). c v y < 0"
    by (auto simp: bst_Node)
  from Node.prems(3) obtain w where w: "w \<in> set (vals (Node l x b v r))" "c val w = 0" by blast
  show ?case
  proof (cases "c val v < 0")
    case True
    have "w \<noteq> v" using True w by auto
    moreover have "w \<notin> set (vals r)"
    proof
      assume "w \<in> set (vals r)"
      with vr have "c v w < 0" by simp
      moreover from w ok have "c w val = 0" by (simp add: cmp_ok_sym)
      ultimately have "c v val < 0" by (rule cmp_ok_less_eq [OF ok])
      from cmp_ok_irrefl [OF ok True this] show False .
    qed
    ultimately have wl: "w \<in> set (vals l)" using w by auto
    then have "l \<noteq> Leaf" by auto
    with lt obtain y where y: "left (node h a) = Some y" by (cases "left (node h a)") auto
    with lt have "tree_at h (Some y) (Some a) l" by simp
    from Node.IH(1) [OF this bl] wl w obtain e where
      "insert_node h y val (Some c) = Some (Inr (h, e, False))" "e \<in> set (addrs l)"
      "c val (Val (node h e)) = 0" by blast
    with y True va show ?thesis by (subst insert_node.simps) simp
  next
    case False
    show ?thesis
    proof (cases "c val v > 0")
      case True
      have "w \<noteq> v" using True w by auto
      moreover have "w \<notin> set (vals l)"
      proof
        assume "w \<in> set (vals l)"
        with lv have "c w v < 0" by simp
        with w have "c val v < 0" by (intro cmp_ok_eq_less [OF ok, of val w v]) auto
        with True show False by simp
      qed
      ultimately have wr: "w \<in> set (vals r)" using w by auto
      then have "r \<noteq> Leaf" by auto
      with rt obtain y where y: "right (node h a) = Some y" by (cases "right (node h a)") auto
      with rt have "tree_at h (Some y) (Some a) r" by simp
      from Node.IH(2) [OF this br] wr w obtain e where
        "insert_node h y val (Some c) = Some (Inr (h, e, False))" "e \<in> set (addrs r)"
        "c val (Val (node h e)) = 0" by blast
      with y True False va show ?thesis by (subst insert_node.simps) simp
    next
      case F2: False
      with False have "c val v = 0" by simp
      with va ax show ?thesis by (subst insert_node.simps) simp
    qed
  qed
qed

text \<open>
  Claim C7.  On a tree ordered under the comparator that holds a value comparing equal to the
  argument, \<open>Insert\<close> returns the node that holds it and false, and the heap and the tree
  record are those it was given: \<open>Count\<close>, \<open>Min\<close>, \<open>Max\<close> and every node are unchanged.
\<close>

theorem insert_existing:
  assumes "cmp_ok c" "cmp rbt = Some c" "tree_at h (root rbt) None t" "bst c t"
    "\<exists>x \<in> set (vals t). c val x = 0"
  shows "\<exists>e. Insert h rbt val = Some (Inr (h, rbt, Some e, False))
           \<and> e \<in> set (addrs t) \<and> c val (Val (node h e)) = 0"
proof -
  from assms(5) have "t \<noteq> Leaf" by auto
  with assms(3) obtain r where r: "root rbt = Some r" by (cases "root rbt") auto
  with assms(3) have "tree_at h (Some r) None t" by simp
  from insert_node_existing [OF assms(1) this assms(4,5)] r assms(2) show ?thesis
    by (auto simp: Insert_def)
qed

text \<open>
  Claim C8.  On a tree that is empty, or none of whose values compares equal to the argument,
  \<open>Delete\<close> returns the zero value and false; the heap and the tree record are those it was
  given, so a valid tree stays valid.  An empty tree needs no comparator and no heap cell is
  read: the premises say nothing about either when the root is \<open>nil\<close>.
\<close>

theorem delete_absent:
  assumes "tree_at h (root rbt) None t" "root rbt \<noteq> None \<longrightarrow> cmp rbt = Some c"
    "\<forall>v \<in> set (vals t). c val v \<noteq> 0"
  shows "Delete zero h rbt val = Some (Inr (h, rbt, zero, False))"
proof (cases "root rbt")
  case None
  then show ?thesis by (simp add: Delete_def)
next
  case (Some r)
  with assms(1) have "tree_at h (Some r) None t" by simp
  from find_node_absent [of h r None t c val, OF this assms(3)] Some assms(2) show ?thesis
    by (simp add: Delete_def)
qed

definition heap3 :: "int heap" where
  "heap3 = \<lparr>cells = (cells heap0)
              (0 := \<lparr>Val = 70, left = Some 1, right = Some 2, parent = None, isBlack = True\<rparr>,
               1 := \<lparr>Val = 50, left = None, right = None, parent = Some 0, isBlack = False\<rparr>,
               2 := \<lparr>Val = 80, left = None, right = None, parent = Some 0, isBlack = False\<rparr>),
            used = 3\<rparr>"

definition tree3 :: "int RBTree" where
  "tree3 = \<lparr>root = Some 0, cmp = Some Compare, Min_ptr = Some 1, Max_ptr = Some 2, Count = 3\<rparr>"

definition shape3 :: "int tree" where
  "shape3 = Node (Node Leaf 1 False 50 Leaf) 0 True 70 (Node Leaf 2 False 80 Leaf)"

lemma tree3_at: "tree_at heap3 (root tree3) None shape3"
  by (simp add: heap3_def tree3_def shape3_def node_def)

lemma tree3_valid: "IsValid heap3 tree3 = Some (Inr True)"
  by code_simp

theorem insert_existing_witness:
  "cmp_ok (Compare :: int \<Rightarrow> int \<Rightarrow> int) \<and> tree_at heap3 (root tree3) None shape3
   \<and> bst Compare shape3 \<and> (\<exists>x \<in> set (vals shape3). Compare (80::int) x = 0)
   \<and> Insert heap3 tree3 80 = Some (Inr (heap3, tree3, Some 2, False))"
proof -
  have 1: "bst Compare shape3" by (simp add: bst_def shape3_def Compare_def)
  have 2: "\<exists>x \<in> set (vals shape3). Compare (80::int) x = 0" by (simp add: shape3_def Compare_def)
  have 3: "cmp tree3 = Some Compare" by (simp add: tree3_def)
  from insert_existing [OF cmp_ok_Compare 3 tree3_at 1 2]
  obtain e where e: "Insert heap3 tree3 80 = Some (Inr (heap3, tree3, Some e, False))"
    "e \<in> set (addrs shape3)" "Compare 80 (Val (node heap3 e)) = 0" by blast
  from e(2,3) have "e = 2" by (auto simp: shape3_def heap3_def node_def Compare_def split: if_splits)
  with e(1) cmp_ok_Compare tree3_at 1 2 show ?thesis by simp
qed

theorem delete_absent_witness:
  "tree_at heap3 (root tree3) None shape3 \<and> cmp tree3 = Some Compare
   \<and> list_all (\<lambda>v. Compare (60::int) v \<noteq> 0) (vals shape3)
   \<and> Delete 0 heap3 tree3 60 = Some (Inr (heap3, tree3, 0, False))
   \<and> IsValid heap3 tree3 = Some (Inr True)"
proof -
  have 1: "root tree3 \<noteq> None \<longrightarrow> cmp tree3 = Some Compare" by (simp add: tree3_def)
  have 2: "\<forall>v \<in> set (vals shape3). Compare (60::int) v \<noteq> 0" by (simp add: shape3_def Compare_def)
  from delete_absent [OF tree3_at 1 2, of 0] tree3_at 1 2 tree3_valid show ?thesis
    by (simp add: tree3_def list_all_iff)
qed

section \<open>Structural equality\<close>

fun same_shape :: "('a \<Rightarrow> 'a \<Rightarrow> int) \<Rightarrow> 'a tree \<Rightarrow> 'a tree \<Rightarrow> bool" where
  "same_shape c Leaf Leaf = True"
| "same_shape c (Node l a b v r) (Node l' a' b' v' r') =
     (c v v' = 0 \<and> b = b' \<and> same_shape c l l' \<and> same_shape c r r')"
| "same_shape c Leaf (Node l' a' b' v' r') = False"
| "same_shape c (Node l a b v r) Leaf = False"

lemma same_shape_Leaf [simp]: "same_shape c Leaf t = (t = Leaf)"
  by (cases t) auto

lemma equalTo_tree:
  "tree_at h (Some a) par t \<Longrightarrow> tree_at h q par' t'
   \<Longrightarrow> equalTo h a q (Some c) = Some (Inr (same_shape c t t'))"
proof (induction t arbitrary: a par q par' t')
  case Leaf
  then show ?case by simp
next
  case (Node l x b v r)
  from Node.prems(1) have ax: "a = x" and va: "Val (node h a) = v" and ba: "isBlack (node h a) = b"
    and lt: "tree_at h (left (node h a)) (Some a) l"
    and rt: "tree_at h (right (node h a)) (Some a) r" by auto
  show ?case
  proof (cases q)
    case None
    with Node.prems(2) have "t' = Leaf" by simp
    with None show ?thesis by (subst equalTo.simps) simp
  next
    case (Some o')
    with Node.prems(2) obtain l' b' v' r' where t': "t' = Node l' o' b' v' r'"
      using tree_at_Some_Node by blast
    with Node.prems(2) Some have vo: "Val (node h o') = v'" and bo: "isBlack (node h o') = b'"
      and lo: "tree_at h (left (node h o')) (Some o') l'"
      and ro: "tree_at h (right (node h o')) (Some o') r'" by auto
    have L: "(case left (node h a) of None \<Rightarrow> Some (Inr True)
               | Some l0 \<Rightarrow> equalTo h l0 (left (node h o')) (Some c))
             = Some (Inr (l = Leaf \<or> same_shape c l l'))"
    proof (cases "left (node h a)")
      case None
      with lt show ?thesis by simp
    next
      case (Some y)
      with lt have "tree_at h (Some y) (Some a) l" by simp
      from Node.IH(1) [OF this lo] this Some show ?thesis by auto
    qed
    have R: "(case right (node h a) of None \<Rightarrow> Some (Inr True)
               | Some r0 \<Rightarrow> equalTo h r0 (right (node h o')) (Some c))
             = Some (Inr (r = Leaf \<or> same_shape c r r'))"
    proof (cases "right (node h a)")
      case None
      with rt show ?thesis by simp
    next
      case (Some y)
      with rt have "tree_at h (Some y) (Some a) r" by simp
      from Node.IH(2) [OF this ro] this Some show ?thesis by auto
    qed
    have ln: "(left (node h a) = None) = (l = Leaf)" using lt by (cases "left (node h a)") auto
    have rn: "(right (node h a) = None) = (r = Leaf)" using rt by (cases "right (node h a)") auto
    have lo': "(left (node h o') = None) = (l' = Leaf)" using lo by (cases "left (node h o')") auto
    have ro': "(right (node h o') = None) = (r' = Leaf)" using ro by (cases "right (node h o')") auto
    show ?thesis
      apply (subst equalTo.simps)
      apply (simp only: L R Some t' va ba vo bo ln rn lo' ro' option.case)
      apply auto
      done
  qed
qed

text \<open>
  Claim C5.  For two trees in the heap, \<open>EqualTo\<close> is true exactly when both are empty, or
  both are non-empty with equal \<open>Count\<close> and the same shape, with values that compare equal
  and equal colours at every position.  Against \<open>nil\<close> it is false.
\<close>

theorem EqualTo_iff:
  assumes "root rbt \<noteq> None \<longrightarrow> cmp rbt = Some c"
    "tree_at h (root rbt) None t" "tree_at h (root another) None t'"
  shows "EqualTo h rbt (Some another)
           = Some (Inr ((t = Leaf \<and> t' = Leaf)
                        \<or> (t \<noteq> Leaf \<and> t' \<noteq> Leaf \<and> Count rbt = Count another \<and> same_shape c t t')))
         \<and> EqualTo h rbt None = Some (Inr False)"
proof (cases "root rbt")
  case None
  with assms(2) have "t = Leaf" by simp
  moreover have "(root another = None) = (t' = Leaf)"
    using assms(3) by (cases "root another") auto
  ultimately show ?thesis using None by (simp add: EqualTo_def)
next
  case (Some r)
  with assms(2) have tr: "tree_at h (Some r) None t" by simp
  then have tn: "t \<noteq> Leaf" by auto
  have an: "(root another = None) = (t' = Leaf)"
    using assms(3) by (cases "root another") auto
  from equalTo_tree [OF tr assms(3)] Some assms(1) tn an show ?thesis
    by (simp add: EqualTo_def)
qed

text \<open>Two trees of the values 50 and 70: the same sorted sequence, two shapes.\<close>

definition heap4 :: "int heap" where
  "heap4 = \<lparr>cells = (cells heap0)
              (0 := \<lparr>Val = 70, left = Some 1, right = None, parent = None, isBlack = True\<rparr>,
               1 := \<lparr>Val = 50, left = None, right = None, parent = Some 0, isBlack = False\<rparr>,
               2 := \<lparr>Val = 50, left = None, right = Some 3, parent = None, isBlack = True\<rparr>,
               3 := \<lparr>Val = 70, left = None, right = None, parent = Some 2, isBlack = False\<rparr>),
            used = 4\<rparr>"

definition tree4a :: "int RBTree" where
  "tree4a = \<lparr>root = Some 0, cmp = Some Compare, Min_ptr = Some 1, Max_ptr = Some 0, Count = 2\<rparr>"

definition tree4b :: "int RBTree" where
  "tree4b = \<lparr>root = Some 2, cmp = Some Compare, Min_ptr = Some 2, Max_ptr = Some 3, Count = 2\<rparr>"

definition shape4a :: "int tree" where
  "shape4a = Node (Node Leaf 1 False 50 Leaf) 0 True 70 Leaf"

definition shape4b :: "int tree" where
  "shape4b = Node Leaf 2 True 50 (Node Leaf 3 False 70 Leaf)"

theorem EqualTo_iff_witness:
  "tree_at heap4 (root tree4a) None shape4a \<and> tree_at heap4 (root tree4b) None shape4b
   \<and> vals shape4a = vals shape4b
   \<and> IsValid heap4 tree4a = Some (Inr True) \<and> IsValid heap4 tree4b = Some (Inr True)
   \<and> EqualTo heap4 tree4a (Some tree4b) = Some (Inr False)
   \<and> EqualTo heap4 tree4a (Some tree4a) = Some (Inr True)
   \<and> EqualTo heap4 tree4a None = Some (Inr False)"
proof -
  have 1: "root tree4a \<noteq> None \<longrightarrow> cmp tree4a = Some Compare" by (simp add: tree4a_def)
  have 2: "tree_at heap4 (root tree4a) None shape4a"
    by (simp add: heap4_def tree4a_def shape4a_def node_def)
  have 3: "tree_at heap4 (root tree4b) None shape4b"
    by (simp add: heap4_def tree4b_def shape4b_def node_def)
  have 4: "IsValid heap4 tree4a = Some (Inr True)" by code_simp
  have 5: "IsValid heap4 tree4b = Some (Inr True)" by code_simp
  have 6: "\<not> same_shape Compare shape4a shape4b" by (simp add: shape4a_def shape4b_def)
  have 7: "same_shape Compare shape4a shape4a" by (simp add: shape4a_def Compare_def)
  have 8: "vals shape4a = vals shape4b" by (simp add: shape4a_def shape4b_def)
  have 9: "shape4a \<noteq> Leaf" by (simp add: shape4a_def)
  from EqualTo_iff [OF 1 2 3] EqualTo_iff [OF 1 2 2] 2 3 4 5 6 7 8 9 show ?thesis by simp
qed

end
